theory Spec2Isabelle
  imports Complex_Main "HOL-Library.AList" "HOL-Library.Multiset"
begin

section \<open>JavaScript strings and numbers\<close>

text \<open>
  A JavaScript string is a sequence of UTF-16 code units and \<open>.length\<close> counts them, so
  a string is modelled as the list of its code units, each a natural number. This keeps
  the two non-ASCII literals of the code (the em dash U+2014 and the ellipsis U+2026)
  one unit long, as they are in the source. \<open>js\<close> turns an ASCII literal into its units.
  White space is the full set that \<open>trim\<close> and the regular expression class \<open>\s\<close>
  recognise.

  A number is a double: a finite double is modelled by the real number it denotes, and
  \<open>jsnum\<close> adds the three values that are not finite. Years and citation counts are
  numbers with integer values.
\<close>

type_synonym jsstring = "nat list"

definition js :: "string \<Rightarrow> jsstring" where
  "js s = map of_char s"

definition isSpace :: "nat \<Rightarrow> bool" where
  "isSpace c = (c \<in> {9, 10, 11, 12, 13, 32, 160, 5760, 8192, 8193, 8194, 8195, 8196, 8197,
     8198, 8199, 8200, 8201, 8202, 8232, 8233, 8239, 8287, 12288, 65279})"

definition isDigit :: "nat \<Rightarrow> bool" where
  "isDigit c = (48 \<le> c \<and> c \<le> 57)"

definition isWord :: "nat \<Rightarrow> bool" where
  "isWord c = ((65 \<le> c \<and> c \<le> 90) \<or> (97 \<le> c \<and> c \<le> 122) \<or> isDigit c \<or> c = 95)"

definition trim :: "jsstring \<Rightarrow> jsstring" where
  "trim s = rev (dropWhile isSpace (rev (dropWhile isSpace s)))"

datatype jsnum = NaN | NegInf | PosInf | Fin real

text \<open>A value read from JSON; an object is the list of its entries.\<close>

datatype json =
    JNull
  | JBool bool
  | JNum jsnum
  | JStr jsstring
  | JArr "json list"
  | JObj "(jsstring \<times> json) list"

text \<open>
  What the engine decides, taken as parameters of the model:
  \<^item> \<open>fadd\<close> and \<open>fmul\<close>, the rounded sum and product of two doubles;
  \<^item> \<open>flog10\<close>, \<open>Math.log10\<close>, which the language leaves to the implementation;
  \<^item> \<open>lowerNonAscii\<close>, \<open>toLowerCase\<close> on a string that has a unit outside ASCII
    (the Unicode case mapping, which depends on the context of a letter);
  \<^item> \<open>showBig\<close>, the decimal form of a number of magnitude \<open>2^53\<close> or more (the
    shortest digits that read back as the same double, in exponent form from \<open>10^21\<close>
    on);
  \<^item> \<open>stringToNumber\<close> and \<open>objectToNumber\<close>, \<open>Number(v)\<close> for a string and for an
    array or object; the latter can throw (\<open>Inl\<close> of the message);
  \<^item> \<open>trimTypeError\<close>, the message of the \<open>TypeError\<close> raised by the call of \<open>.trim\<close>
    on a value that has no such method.
\<close>

record Runtime =
  fadd :: "real \<Rightarrow> real \<Rightarrow> real"
  fmul :: "real \<Rightarrow> real \<Rightarrow> real"
  flog10 :: "real \<Rightarrow> real"
  lowerNonAscii :: "jsstring \<Rightarrow> jsstring"
  showBig :: "int \<Rightarrow> jsstring"
  stringToNumber :: "jsstring \<Rightarrow> jsnum"
  objectToNumber :: "json \<Rightarrow> jsstring + jsnum"
  trimTypeError :: jsstring

text \<open>\<open>toLowerCase\<close>: on an ASCII string, the letters A to Z are lowered.\<close>

definition lowerUnit :: "nat \<Rightarrow> nat" where
  "lowerUnit c = (if 65 \<le> c \<and> c \<le> 90 then c + 32 else c)"

definition toLowerCase :: "Runtime \<Rightarrow> jsstring \<Rightarrow> jsstring" where
  "toLowerCase rt s = (if list_all (\<lambda>c. c < 128) s then map lowerUnit s else lowerNonAscii rt s)"

text \<open>
  \<open>String(n)\<close> and \<open>${n}\<close> for a number \<open>n\<close> with an integer value: below \<open>2^53\<close> in
  magnitude, its decimal digits, with a minus sign.
\<close>

fun showNat :: "nat \<Rightarrow> jsstring" where
  "showNat n = (if n < 10 then [48 + n] else showNat (n div 10) @ [48 + n mod 10])"

definition showInt :: "Runtime \<Rightarrow> int \<Rightarrow> jsstring" where
  "showInt rt i =
     (if 9007199254740992 \<le> \<bar>i\<bar> then showBig rt i
      else if i < 0 then 45 # showNat (nat (- i))
      else showNat (nat i))"

text \<open>Truthiness of a string that may be absent: present and non-empty.\<close>

fun truthy :: "jsstring option \<Rightarrow> bool" where
  "truthy None = False"
| "truthy (Some s) = (s \<noteq> [])"

text \<open>\<open>s || undefined\<close>.\<close>

definition orUndefined :: "jsstring \<Rightarrow> jsstring option" where
  "orUndefined s = (if s = [] then None else Some s)"

section \<open>Identifier normalizers\<close>

text \<open>
  A regular expression anchored at the start that is a sequence of literals, some of them
  optional, is matched piece by piece. \<open>dropLit p s\<close> is the rest of \<open>s\<close> after the
  literal \<open>p\<close>, when \<open>s\<close> starts with it; \<open>dropOpt\<close> is the optional piece \<open>(p)?\<close>.
  No piece of the expressions below can match where the optional piece before it was
  skipped wrongly, so no backtracking is lost.
\<close>

definition dropLit :: "jsstring \<Rightarrow> jsstring \<Rightarrow> jsstring option" where
  "dropLit p s = (if take (length p) s = p then Some (drop (length p) s) else None)"

definition dropOpt :: "jsstring \<Rightarrow> jsstring \<Rightarrow> jsstring" where
  "dropOpt p s = (case dropLit p s of None \<Rightarrow> s | Some r \<Rightarrow> r)"

text \<open>\<open>d.replace(/^https?:\/\/(dx\.)?doi\.org\//, '')\<close>\<close>

definition stripDoiOrg :: "jsstring \<Rightarrow> jsstring" where
  "stripDoiOrg d =
     (case dropLit (js ''http'') d of
        None \<Rightarrow> d
      | Some r1 \<Rightarrow>
          (case dropLit (js ''://'') (dropOpt (js ''s'') r1) of
             None \<Rightarrow> d
           | Some r2 \<Rightarrow>
               (case dropLit (js ''doi.org/'') (dropOpt (js ''dx.'') r2) of
                  None \<Rightarrow> d
                | Some r3 \<Rightarrow> r3)))"

definition normDOI :: "Runtime \<Rightarrow> jsstring option \<Rightarrow> jsstring option" where
  "normDOI rt doi =
     (case doi of
        None \<Rightarrow> None
      | Some raw \<Rightarrow>
          if raw = [] then None
          else orUndefined (stripDoiOrg (toLowerCase rt (trim raw))))"

text \<open>\<open>s.replace(/^arxiv:/, '')\<close>\<close>

definition stripArxivPrefix :: "jsstring \<Rightarrow> jsstring" where
  "stripArxivPrefix s = dropOpt (js ''arxiv:'') s"

text \<open>
  \<open>s.replace(/v\d+$/, '')\<close>: the only possible match is the letter \<open>v\<close> standing right
  before the run of digits that ends the string, when that run is not empty.
\<close>

definition stripVersion :: "jsstring \<Rightarrow> jsstring" where
  "stripVersion s =
     (let r = rev s; digits = takeWhile isDigit r; before = dropWhile isDigit r
      in case before of
           [] \<Rightarrow> s
         | c # front \<Rightarrow> if digits \<noteq> [] \<and> c = 118 then rev front else s)"

definition normArxivId :: "Runtime \<Rightarrow> jsstring option \<Rightarrow> jsstring option" where
  "normArxivId rt ident =
     (case ident of
        None \<Rightarrow> None
      | Some raw \<Rightarrow>
          if raw = [] then None
          else orUndefined (stripVersion (stripArxivPrefix (toLowerCase rt (trim raw)))))"

text \<open>
  \<open>normTitle\<close>: lower case, every run of white space replaced by one space, every unit
  that is neither a word character nor white space removed, then trimmed.
\<close>

fun collapseSpaces :: "bool \<Rightarrow> jsstring \<Rightarrow> jsstring" where
  "collapseSpaces inRun [] = []"
| "collapseSpaces inRun (c # cs) =
     (if isSpace c then (if inRun then collapseSpaces True cs else 32 # collapseSpaces True cs)
      else c # collapseSpaces False cs)"

definition normTitle :: "Runtime \<Rightarrow> jsstring option \<Rightarrow> jsstring" where
  "normTitle rt t =
     (let s = (case t of None \<Rightarrow> [] | Some v \<Rightarrow> v)
      in trim (filter (\<lambda>c. isWord c \<or> isSpace c) (collapseSpaces False (toLowerCase rt s))))"

section \<open>Literature records\<close>

datatype Source = Crossref | Arxiv | S2

text \<open>
  \<open>LitItem\<close>. The field \<open>id\<close> is called \<open>ident\<close> here. An optional field is an option;
  \<open>externalIds\<close> is the list of the object's entries.
\<close>

record LitItem =
  ident :: jsstring
  source :: Source
  title :: jsstring
  year :: "int option"
  authors :: "jsstring list option"
  abstract :: "jsstring option"
  doi :: "jsstring option"
  url :: "jsstring option"
  citationCount :: "int option"
  externalIds :: "(jsstring \<times> jsstring) list option"

text \<open>\<open>n || 0\<close> and \<open>n ?? 0\<close> agree on integers: an absent count is 0.\<close>

definition orZero :: "int option \<Rightarrow> int" where
  "orZero n = (case n of None \<Rightarrow> 0 | Some v \<Rightarrow> v)"

text \<open>\<open>x.externalIds?.arXiv\<close>\<close>

definition arXivOf :: "LitItem \<Rightarrow> jsstring option" where
  "arXivOf x = (case externalIds x of None \<Rightarrow> None | Some ids \<Rightarrow> map_of ids (js ''arXiv''))"

section \<open>Dedupe and rank\<close>

definition makeKey :: "Runtime \<Rightarrow> LitItem \<Rightarrow> jsstring" where
  "makeKey rt x =
     (let doiK = (case doi x of None \<Rightarrow> [] | Some d \<Rightarrow> if d = [] then [] else js ''doi:'' @ d);
          ax = (case arXivOf x of None \<Rightarrow> [] | Some a \<Rightarrow> if a = [] then [] else js ''arxiv:'' @ a);
          normT = normTitle rt (Some (title x));
          y = (case year x of None \<Rightarrow> [] | Some n \<Rightarrow> if n = 0 then [] else js ''y:'' @ showInt rt n)
      in if doiK \<noteq> [] then doiK
         else if ax \<noteq> [] then ax
         else js ''t:'' @ normT @ js ''|'' @ y)"

text \<open>The choice between the incoming record \<open>it\<close> and the stored record \<open>existing\<close>.\<close>

definition pick :: "LitItem \<Rightarrow> LitItem \<Rightarrow> LitItem" where
  "pick it existing =
     (if orZero (citationCount it) > orZero (citationCount existing) then it
      else if truthy (abstract existing) then existing
      else if truthy (abstract it) then it
      else existing)"

text \<open>
  \<open>byKey\<close> is a \<open>Map\<close>, which iterates in the order in which its keys were first set: an
  association list where \<open>set\<close> replaces the value of a key in place and puts a new key
  at the end (\<open>AList.update\<close>), and \<open>get\<close> is \<open>map_of\<close>. One round of the loop:
\<close>

definition dedupeStep ::
  "Runtime \<Rightarrow> LitItem \<Rightarrow> (jsstring \<times> LitItem) list \<Rightarrow> (jsstring \<times> LitItem) list" where
  "dedupeStep rt it byKey =
     (let k = makeKey rt it
      in if k = [] then byKey
         else (case map_of byKey k of
                 None \<Rightarrow> AList.update k it byKey
               | Some existing \<Rightarrow> AList.update k (pick it existing) byKey))"

definition byKeyOf :: "Runtime \<Rightarrow> LitItem list \<Rightarrow> (jsstring \<times> LitItem) list" where
  "byKeyOf rt xs = fold (dedupeStep rt) xs []"

definition recency :: "int \<Rightarrow> real" where
  "recency age = (if age \<le> 2 then 2 else if age \<le> 5 then 1 else 0)"

definition ageOf :: "int \<Rightarrow> LitItem \<Rightarrow> int" where
  "ageOf nowYear x =
     (case year x of None \<Rightarrow> 10 | Some y \<Rightarrow> if y = 0 then 10 else nowYear - y)"

text \<open>\<open>cit = Math.log10(1 + Math.max(0, c)) * 1.5\<close>, in doubles.\<close>

definition citOf :: "Runtime \<Rightarrow> LitItem \<Rightarrow> real" where
  "citOf rt x =
     (let c = orZero (citationCount x)
      in fmul rt (flog10 rt (fadd rt 1 (max 0 (real_of_int c)))) 1.5)"

text \<open>The double that the literal \<open>0.1\<close> denotes.\<close>

definition tenth :: real where
  "tenth = 3602879701896397 / 36028797018963968"

definition srcNudgeOf :: "LitItem \<Rightarrow> real" where
  "srcNudgeOf x = (if source x = S2 then tenth else 0)"

text \<open>\<open>score = cit + recency + srcNudge\<close>: two rounded sums, from the left.\<close>

definition scoreOf :: "Runtime \<Rightarrow> int \<Rightarrow> LitItem \<Rightarrow> real" where
  "scoreOf rt nowYear x =
     fadd rt (fadd rt (citOf rt x) (recency (ageOf nowYear x))) (srcNudgeOf x)"

text \<open>
  \<open>scored.sort((a, b) => b.score - a.score)\<close> is a stable sort into descending score:
  a stable sort on the negated score.
\<close>

definition rankItems :: "Runtime \<Rightarrow> int \<Rightarrow> LitItem list \<Rightarrow> LitItem list" where
  "rankItems rt nowYear merged =
     (let scored = map (\<lambda>x. (scoreOf rt nowYear x, x)) merged
      in map snd (sort_key (\<lambda>s. - fst s) scored))"

record Ranked =
  items :: "LitItem list"
  top_items :: "LitItem list"

definition dedupeAndRank :: "Runtime \<Rightarrow> LitItem list \<Rightarrow> int \<Rightarrow> nat \<Rightarrow> Ranked" where
  "dedupeAndRank rt xs nowYear topN =
     (let merged = map snd (byKeyOf rt xs);
          ranked = rankItems rt nowYear merged
      in \<lparr> items = merged, top_items = take topN ranked \<rparr>)"

text \<open>The invariant of \<open>byKey\<close>: keys occur once, and every record is stored under its own key.\<close>

definition keyed :: "Runtime \<Rightarrow> (jsstring \<times> LitItem) list \<Rightarrow> bool" where
  "keyed rt byKey = (distinct (map fst byKey) \<and> map (makeKey rt \<circ> snd) byKey = map fst byKey)"


section \<open>The aggregation endpoint\<close>

text \<open>
  \<open>Promise.allSettled\<close> gives one outcome per adapter, in the order of the call, whatever
  the order of completion: the records of a fulfilled promise, or the \<open>message\<close> of the
  error a rejected one carries. The adapters themselves are network calls; the endpoint
  is modelled for any outcome they may have, as functions of the query and the limit.
  The records they return are taken at their declared type \<open>LitItem\<close>.
\<close>

datatype settled = Fulfilled "LitItem list" | Rejected jsstring

record Adapters =
  searchCrossref :: "jsstring \<Rightarrow> jsnum \<Rightarrow> settled"
  searchArxiv :: "jsstring \<Rightarrow> jsnum \<Rightarrow> settled"
  searchS2 :: "jsstring \<Rightarrow> jsnum \<Rightarrow> settled"

datatype LitBody =
    ErrorBody jsstring
  | ResultBody "LitItem list" "LitItem list"
  | WarningBody "LitItem list" "LitItem list" jsstring

record LitResponse =
  status :: nat
  body :: LitBody

text \<open>\<open>if (r.status === 'fulfilled') items.push(...r.value)\<close>\<close>

fun pushed :: "settled \<Rightarrow> LitItem list" where
  "pushed (Fulfilled v) = v"
| "pushed (Rejected m) = []"

text \<open>\<open>(r as any)?.reason?.message\<close>\<close>

fun reasonMessage :: "settled \<Rightarrow> jsstring option" where
  "reasonMessage (Fulfilled v) = None"
| "reasonMessage (Rejected m) = Some m"

text \<open>\<open>a || b\<close> on strings that may be absent.\<close>

definition orElse :: "jsstring option \<Rightarrow> jsstring option \<Rightarrow> jsstring option" where
  "orElse a b = (if truthy a then a else b)"

definition quoted :: "string \<Rightarrow> jsstring" where
  "quoted s = 34 # js s @ [34]"

text \<open>
  The request body is whatever JSON the client sent (\<open>{}\<close> when it is not JSON), so a
  field of it is absent or any JSON value. Truthiness of a JSON value:
\<close>

fun truthyJson :: "json \<Rightarrow> bool" where
  "truthyJson JNull = False"
| "truthyJson (JBool b) = b"
| "truthyJson (JNum n) = (n \<noteq> NaN \<and> n \<noteq> Fin 0)"
| "truthyJson (JStr s) = (s \<noteq> [])"
| "truthyJson (JArr a) = True"
| "truthyJson (JObj kvs) = True"

text \<open>
  \<open>(body?.query || '').trim()\<close>: a value that is not truthy gives the empty string; a
  string is trimmed; any other truthy value has no method \<open>trim\<close>, and the call throws
  (\<open>Inl\<close> of the message).
\<close>

definition trimmedQuery :: "Runtime \<Rightarrow> json option \<Rightarrow> jsstring + jsstring" where
  "trimmedQuery rt queryField =
     (case queryField of
        None \<Rightarrow> Inr []
      | Some v \<Rightarrow>
          if \<not> truthyJson v then Inr []
          else (case v of JStr s \<Rightarrow> Inr (trim s) | _ \<Rightarrow> Inl (trimTypeError rt)))"

text \<open>\<open>Number(v)\<close>\<close>

definition toNumber :: "Runtime \<Rightarrow> json \<Rightarrow> jsstring + jsnum" where
  "toNumber rt v =
     (case v of
        JNull \<Rightarrow> Inr (Fin 0)
      | JBool b \<Rightarrow> Inr (Fin (if b then 1 else 0))
      | JNum n \<Rightarrow> Inr n
      | JStr s \<Rightarrow> Inr (stringToNumber rt s)
      | JArr a \<Rightarrow> objectToNumber rt v
      | JObj kvs \<Rightarrow> objectToNumber rt v)"

text \<open>The order of numbers; nothing compares with \<open>NaN\<close>.\<close>

fun numLe :: "jsnum \<Rightarrow> jsnum \<Rightarrow> bool" where
  "numLe NaN b = False"
| "numLe a NaN = False"
| "numLe NegInf b = True"
| "numLe a PosInf = True"
| "numLe (Fin x) (Fin y) = (x \<le> y)"
| "numLe a b = False"

text \<open>\<open>Math.max\<close> and \<open>Math.min\<close> of two numbers: \<open>NaN\<close> if one of them is.\<close>

definition mathMax :: "jsnum \<Rightarrow> jsnum \<Rightarrow> jsnum" where
  "mathMax a b = (if a = NaN \<or> b = NaN then NaN else if numLe a b then b else a)"

definition mathMin :: "jsnum \<Rightarrow> jsnum \<Rightarrow> jsnum" where
  "mathMin a b = (if a = NaN \<or> b = NaN then NaN else if numLe a b then a else b)"

text \<open>\<open>Math.min(Math.max(Number(body?.limit || 20), 1), 50)\<close>\<close>

definition clampLimit :: "Runtime \<Rightarrow> json option \<Rightarrow> jsstring + jsnum" where
  "clampLimit rt limitField =
     (let v = (case limitField of
                 None \<Rightarrow> JNum (Fin 20)
               | Some l \<Rightarrow> if truthyJson l then l else JNum (Fin 20))
      in case toNumber rt v of
           Inl m \<Rightarrow> Inl m
         | Inr n \<Rightarrow> Inr (mathMin (mathMax n (Fin 1)) (Fin 50)))"

text \<open>\<open>catch (e) { return json({ error: e.message || 'Server error' }, 500) }\<close>\<close>

definition caught :: "jsstring \<Rightarrow> LitResponse" where
  "caught m = \<lparr> status = 500, body = ErrorBody (if m = [] then js ''Server error'' else m) \<rparr>"

text \<open>
  \<open>POST\<close> of the multi-source search. \<open>queryField\<close> and \<open>limitField\<close> are the fields
  \<open>query\<close> and \<open>limit\<close> of the request body, when present; \<open>nowYear\<close> is
  \<open>new Date().getFullYear()\<close>. The query is read first, then the limit; an exception
  in either is caught and answered with 500. A failure of an adapter is an outcome,
  not an exception.
\<close>

definition litPOST ::
  "Adapters \<Rightarrow> Runtime \<Rightarrow> int \<Rightarrow> json option \<Rightarrow> json option \<Rightarrow> LitResponse" where
  "litPOST env rt nowYear queryField limitField =
     (case trimmedQuery rt queryField of
        Inl m \<Rightarrow> caught m
      | Inr query \<Rightarrow>
          (case clampLimit rt limitField of
             Inl m \<Rightarrow> caught m
           | Inr limit \<Rightarrow>
               if query = [] then
                 \<lparr> status = 400, body = ErrorBody (js ''Provide '' @ quoted ''query'') \<rparr>
               else
                 (let cr = searchCrossref env query limit;
                      ax = searchArxiv env query limit;
                      s2 = searchS2 env query limit;
                      found = pushed cr @ pushed ax @ pushed s2
                  in if found = [] then
                       (let err = (case orElse (reasonMessage cr)
                                          (orElse (reasonMessage ax) (reasonMessage s2)) of
                                     None \<Rightarrow> js ''No results''
                                   | Some m \<Rightarrow> if m = [] then js ''No results'' else m)
                        in \<lparr> status = 200, body = WarningBody [] [] err \<rparr>)
                     else
                       (let r = dedupeAndRank rt found nowYear 12
                        in \<lparr> status = 200, body = ResultBody (items r) (top_items r) \<rparr>))))"

section \<open>The PubMed single-paper endpoint\<close>








section \<open>The context for the language model\<close>

definition emDash :: nat where
  "emDash = 8212"

definition ellipsis :: nat where
  "ellipsis = 8230"

text \<open>\<open>Array.prototype.join\<close>\<close>

fun joinWith :: "jsstring \<Rightarrow> jsstring list \<Rightarrow> jsstring" where
  "joinWith sep [] = []"
| "joinWith sep [x] = x"
| "joinWith sep (x # y # ys) = x @ sep @ joinWith sep (y # ys)"

definition compactAuthors :: "jsstring list option \<Rightarrow> jsstring" where
  "compactAuthors a =
     (case a of
        None \<Rightarrow> []
      | Some names \<Rightarrow>
          if names = [] then []
          else if length names \<le> 3 then joinWith (js '', '') names
          else joinWith (js '', '') (take 3 names) @ js '' et al.'')"

text \<open>\<open>x.source.toUpperCase()\<close>, on the three values of the field.\<close>

fun sourceUpper :: "Source \<Rightarrow> jsstring" where
  "sourceUpper Crossref = js ''CROSSREF''"
| "sourceUpper Arxiv = js ''ARXIV''"
| "sourceUpper S2 = js ''S2''"

definition mkCiteLine :: "Runtime \<Rightarrow> LitItem \<Rightarrow> nat \<Rightarrow> jsstring" where
  "mkCiteLine rt x idx =
     (let yr = (case year x of None \<Rightarrow> []
                | Some y \<Rightarrow> if y = 0 then [] else js '' ('' @ showInt rt y @ js '')'');
          src = sourceUpper (source x);
          doiPart = (case doi x of None \<Rightarrow> []
                     | Some d \<Rightarrow> if d = [] then [] else js '' '' @ [emDash] @ js '' doi:'' @ d);
          urlPart = (case url x of None \<Rightarrow> [] | Some u \<Rightarrow> if u = [] then [] else js '' '' @ u)
      in js ''#'' @ showInt rt (int idx + 1) @ js '' '' @ title x @ yr @ js '' '' @ [emDash] @ js '' ''
         @ compactAuthors (authors x) @ js '' ['' @ src @ js '']'' @ doiPart
         @ (if urlPart \<noteq> [] then js '' '' @ [emDash] @ js '' '' @ urlPart else []))"

text \<open>The abstract as it enters a block: trimmed, and cut after 1500 units with an ellipsis.\<close>

definition cappedAbstract :: "LitItem \<Rightarrow> jsstring" where
  "cappedAbstract x =
     (let abs = trim (case abstract x of None \<Rightarrow> [] | Some a \<Rightarrow> a)
      in if length abs > 1500 then take 1500 abs @ [ellipsis] else abs)"

definition mkBlock :: "Runtime \<Rightarrow> LitItem \<Rightarrow> nat \<Rightarrow> jsstring" where
  "mkBlock rt x i =
     (let header = mkCiteLine rt x i; abs = cappedAbstract x
      in header @ js ''\<newline>Abstract: '' @ (if abs = [] then js ''N/A'' else abs))"

text \<open>The first loop: one block per record, numbered from its index.\<close>

definition mkBlocks :: "Runtime \<Rightarrow> LitItem list \<Rightarrow> jsstring list" where
  "mkBlocks rt xs = map (\<lambda>(i, x). mkBlock rt x i) (zip [0 ..< length xs] xs)"

definition blockSep :: jsstring where
  "blockSep = js ''\<newline>\<newline>''"

text \<open>The second loop, with its \<open>break\<close>: \<open>out\<close> is the text so far.\<close>

fun appendBlocks :: "nat \<Rightarrow> jsstring \<Rightarrow> jsstring list \<Rightarrow> jsstring" where
  "appendBlocks maxChars out [] = out"
| "appendBlocks maxChars out (b # bs) =
     (if length (out @ blockSep @ b) > maxChars then out
      else appendBlocks maxChars (out @ (if out \<noteq> [] then blockSep else []) @ b) bs)"

definition mkGeminiContext :: "Runtime \<Rightarrow> LitItem list \<Rightarrow> nat \<Rightarrow> jsstring" where
  "mkGeminiContext rt xs maxChars = appendBlocks maxChars [] (mkBlocks rt xs)"

section \<open>Example records and environments\<close>

text \<open>
  Concrete inputs, used to run the definitions above.

  \<open>nearest\<close> rounds a real number to the nearest double, ties to the even significand,
  as IEEE 754 does in the normal range: with \<open>e\<close> the binary exponent of \<open>x\<close>, the
  doubles around \<open>x\<close> are the multiples of \<open>2^(e - 52)\<close>. \<open>roundedRuntime\<close> computes a
  sum and a product by this rounding, and takes for \<open>Math.log10\<close> the correctly rounded
  logarithm. Its other fields are not used by the examples.
\<close>

definition roundHalfEven :: "real \<Rightarrow> int" where
  "roundHalfEven q =
     (let n = \<lfloor>q\<rfloor>
      in if q - of_int n < 1 / 2 then n
         else if 1 / 2 < q - of_int n then n + 1
         else if even n then n else n + 1)"

definition ulpOf :: "real \<Rightarrow> real" where
  "ulpOf m = 2 powr (of_int \<lfloor>log 2 m\<rfloor> - 52)"

definition nearest :: "real \<Rightarrow> real" where
  "nearest x =
     (if x = 0 then 0
      else sgn x * of_int (roundHalfEven (\<bar>x\<bar> / ulpOf \<bar>x\<bar>)) * ulpOf \<bar>x\<bar>)"

definition roundedRuntime :: Runtime where
  "roundedRuntime = \<lparr> fadd = (\<lambda>a b. nearest (a + b)), fmul = (\<lambda>a b. nearest (a * b)),
     flog10 = (\<lambda>x. nearest (log 10 x)),
     lowerNonAscii = map lowerUnit, showBig = (\<lambda>i. js ''1e+21''),
     stringToNumber = (\<lambda>s. NaN), objectToNumber = (\<lambda>v. Inr NaN),
     trimTypeError = js ''trim is not a function'' \<rparr>"

definition blankRecord :: LitItem where
  "blankRecord = \<lparr> ident = [], source = Crossref, title = [], year = None, authors = None,
     abstract = None, doi = None, url = None, citationCount = None, externalIds = None \<rparr>"

definition citedNoAbstract :: LitItem where
  "citedNoAbstract = blankRecord \<lparr> doi := Some (js ''10.1/x''), citationCount := Some 10 \<rparr>"

definition uncitedWithAbstract :: LitItem where
  "uncitedWithAbstract = blankRecord \<lparr> doi := Some (js ''10.1/x''), abstract := Some (js ''text'') \<rparr>"








definition shortPaper :: LitItem where
  "shortPaper = blankRecord \<lparr> title := js ''T'', abstract := Some (js '' abc '') \<rparr>"

definition longPaper :: LitItem where
  "longPaper = blankRecord \<lparr> title := replicate 12000 120 \<rparr>"

definition longAbstract :: LitItem where
  "longAbstract = blankRecord \<lparr> abstract := Some (replicate 2000 97) \<rparr>"


section \<open>Normalizer equations\<close>

lemma js_https_doi:
  "js ''https://doi.org/10.1/ABC'' =
     [104,116,116,112,115,58,47,47,100,111,105,46,111,114,103,47,49,48,46,49,47,65,66,67]"
  by (simp add: js_def)

lemma js_arxiv_id:
  "js ''arXiv:1234.5678v3'' = [97,114,88,105,118,58,49,50,51,52,46,53,54,55,56,118,51]"
  by (simp add: js_def)

lemma js_literals:
  "js ''http'' = [104,116,116,112]"
  "js ''s'' = [115]"
  "js ''://'' = [58,47,47]"
  "js ''dx.'' = [100,120,46]"
  "js ''doi.org/'' = [100,111,105,46,111,114,103,47]"
  "js ''arxiv:'' = [97,114,120,105,118,58]"
  "js ''10.1/abc'' = [49,48,46,49,47,97,98,99]"
  "js ''1234.5678'' = [49,50,51,52,46,53,54,55,56]"
  by (simp_all add: js_def)

text \<open>
  C7: \<open>normDOI("https://doi.org/10.1/ABC")\<close> is \<open>"10.1/abc"\<close>, \<open>normDOI\<close> of an empty or
  missing input is \<open>undefined\<close>, and \<open>normArxivId("arXiv:1234.5678v3")\<close> is \<open>"1234.5678"\<close>.
\<close>

theorem normalizer_equations:
  "normDOI rt (Some (js ''https://doi.org/10.1/ABC'')) = Some (js ''10.1/abc'')
   \<and> normDOI rt (Some []) = None
   \<and> normDOI rt None = None
   \<and> normArxivId rt (Some (js ''arXiv:1234.5678v3'')) = Some (js ''1234.5678'')"
  by (simp add: normDOI_def normArxivId_def js_https_doi js_arxiv_id js_literals
      orUndefined_def stripDoiOrg_def stripArxivPrefix_def stripVersion_def dropLit_def
      dropOpt_def toLowerCase_def lowerUnit_def trim_def isSpace_def isDigit_def)

section \<open>Properties of the dedupe loop\<close>

lemma makeKey_nonempty: "makeKey rt x \<noteq> []"
  by (auto simp: makeKey_def Let_def js_def split: option.splits)

lemma pick_cases: "pick it e = it \<or> pick it e = e"
  by (simp add: pick_def)

lemma dedupeStep_update:
  "dedupeStep rt it byKey =
     AList.update (makeKey rt it)
       (case map_of byKey (makeKey rt it) of None \<Rightarrow> it | Some e \<Rightarrow> pick it e) byKey"
  by (simp add: dedupeStep_def Let_def makeKey_nonempty split: option.splits)

lemma keyed_lookup:
  assumes "keyed rt byKey" "map_of byKey k = Some e"
  shows "makeKey rt e = k"
proof -
  from assms(2) have "(k, e) \<in> set byKey" by (rule map_of_SomeD)
  moreover from assms(1) have "\<forall>p \<in> set byKey. makeKey rt (snd p) = fst p"
    by (simp add: keyed_def)
  ultimately show ?thesis by fastforce
qed

lemma update_keys_agree:
  "map (makeKey rt \<circ> snd) al = map fst al \<Longrightarrow> makeKey rt v = k \<Longrightarrow>
   map (makeKey rt \<circ> snd) (AList.update k v al) = map fst (AList.update k v al)"
  by (induction al) auto

lemma keyed_step: "keyed rt byKey \<Longrightarrow> keyed rt (dedupeStep rt it byKey)"
proof -
  assume k: "keyed rt byKey"
  let ?v = "case map_of byKey (makeKey rt it) of None \<Rightarrow> it | Some e \<Rightarrow> pick it e"
  have "makeKey rt ?v = makeKey rt it"
  proof (cases "map_of byKey (makeKey rt it)")
    case None then show ?thesis by simp
  next
    case (Some e)
    with k have "makeKey rt e = makeKey rt it" by (rule keyed_lookup)
    with Some show ?thesis using pick_cases [of it e] by auto
  qed
  with k show ?thesis
    unfolding dedupeStep_update keyed_def
    by (simp add: distinct_update update_keys_agree)
qed

lemma keyed_fold: "keyed rt acc \<Longrightarrow> keyed rt (fold (dedupeStep rt) xs acc)"
  by (induction xs arbitrary: acc) (simp_all add: keyed_step)

lemma keyed_byKeyOf: "keyed rt (byKeyOf rt xs)"
  unfolding byKeyOf_def by (rule keyed_fold) (simp add: keyed_def)

lemma update_fresh: "k \<notin> fst ` set al \<Longrightarrow> AList.update k v al = al @ [(k, v)]"
  by (induction al) auto

lemma fold_fresh:
  "distinct (map (makeKey rt) xs) \<Longrightarrow> set (map (makeKey rt) xs) \<inter> fst ` set acc = {} \<Longrightarrow>
   fold (dedupeStep rt) xs acc = acc @ map (\<lambda>x. (makeKey rt x, x)) xs"
proof (induction xs arbitrary: acc)
  case Nil
  then show ?case by simp
next
  case (Cons x xs)
  from Cons.prems have fresh: "makeKey rt x \<notin> fst ` set acc" by auto
  then have none: "map_of acc (makeKey rt x) = None" by (simp add: map_of_eq_None_iff)
  have step: "dedupeStep rt x acc = acc @ [(makeKey rt x, x)]"
    by (simp add: dedupeStep_update none update_fresh [OF fresh])
  from Cons.prems have "distinct (map (makeKey rt) xs)"
    and "set (map (makeKey rt) xs) \<inter> fst ` set (acc @ [(makeKey rt x, x)]) = {}" by auto
  then have "fold (dedupeStep rt) xs (acc @ [(makeKey rt x, x)]) =
      (acc @ [(makeKey rt x, x)]) @ map (\<lambda>x. (makeKey rt x, x)) xs" by (rule Cons.IH)
  with step show ?case by simp
qed

lemma byKeyOf_values: "byKeyOf rt (map snd (byKeyOf rt xs)) = byKeyOf rt xs"
proof -
  let ?B = "byKeyOf rt xs"
  have k: "keyed rt ?B" by (rule keyed_byKeyOf)
  then have "map (makeKey rt \<circ> snd) ?B = map fst ?B" and "distinct (map fst ?B)"
    by (simp_all add: keyed_def)
  then have d: "distinct (map (makeKey rt) (map snd ?B))" by (simp only: map_map)
  have "byKeyOf rt (map snd ?B) = map (\<lambda>x. (makeKey rt x, x)) (map snd ?B)"
    unfolding byKeyOf_def [of rt "map snd ?B"] using fold_fresh [OF d, of "[]"] by simp
  also have "\<dots> = map (\<lambda>p. ((makeKey rt \<circ> snd) p, snd p)) ?B" by simp
  also have "\<dots> = ?B"
  proof -
    from k have "\<forall>p \<in> set ?B. (makeKey rt \<circ> snd) p = fst p"
      by (simp add: keyed_def)
    then have "map (\<lambda>p. ((makeKey rt \<circ> snd) p, snd p)) ?B = map (\<lambda>p. p) ?B"
      by (intro map_cong) auto
    then show ?thesis by simp
  qed
  finally show ?thesis .
qed

text \<open>
  C4: deduplication is idempotent. Deduplicating the representatives that a
  deduplication returned gives the same list of records again, so the same set, and of
  the same size.
\<close>

theorem dedupe_idempotent:
  "items (dedupeAndRank rt (items (dedupeAndRank rt xs nowYear topN)) nowYear' topN') =
   items (dedupeAndRank rt xs nowYear topN)"
  by (simp add: dedupeAndRank_def Let_def byKeyOf_values)

section \<open>Records without identifiers\<close>

lemma blank_key: "makeKey rt blankRecord = js ''t:|''"
  by (simp add: makeKey_def blankRecord_def arXivOf_def normTitle_def trim_def toLowerCase_def js_def)

text \<open>
  C2: the key is the DOI key, else the arXiv key, else the title and year key, and a
  record with a blank title and no identifier should get an empty key and be skipped.
  The third candidate is never empty: such a record gets the key \<open>t:|\<close>, the test
  \<open>if (!k) continue\<close> never fires, and the record is in the output.
\<close>

theorem blank_record_kept:
  "makeKey rt blankRecord = js ''t:|''
   \<and> makeKey rt blankRecord \<noteq> []
   \<and> items (dedupeAndRank rt [blankRecord] 2024 12) = [blankRecord]"
  by (simp add: blank_key js_def dedupeAndRank_def byKeyOf_def dedupeStep_update Let_def)

section \<open>The representative of a group\<close>

lemmas example_defs = blankRecord_def citedNoAbstract_def uncitedWithAbstract_def

lemma example_keys:
  "makeKey rt citedNoAbstract = js ''doi:10.1/x''" "makeKey rt uncitedWithAbstract = js ''doi:10.1/x''"
  by (simp_all add: makeKey_def example_defs js_def)

text \<open>
  C1, as stated, fails: a stored record with ten citations and no abstract is replaced
  by an incoming record of the same key with no citation and an abstract, so the
  representative is not the record with the strictly higher citation count.
\<close>

theorem less_cited_replaces_more_cited:
  "makeKey roundedRuntime citedNoAbstract = makeKey roundedRuntime uncitedWithAbstract
   \<and> orZero (citationCount uncitedWithAbstract) < orZero (citationCount citedNoAbstract)
   \<and> items (dedupeAndRank roundedRuntime [citedNoAbstract, uncitedWithAbstract] 2024 12)
       = [uncitedWithAbstract]"
  apply (simp add: example_keys dedupeAndRank_def byKeyOf_def dedupeStep_update Let_def pick_def)
  apply (simp add: example_defs orZero_def js_def)
  done

lemma byKeyOf_snoc: "byKeyOf rt (xs @ [it]) = dedupeStep rt it (byKeyOf rt xs)"
  by (simp add: byKeyOf_def)

text \<open>
  C1, amended: when a record \<open>it\<close> collides with the stored representative \<open>existing\<close>
  of its key, the new representative is \<open>it\<close> if its citation count (absent counts as 0)
  is strictly higher; otherwise, on a tie or when the stored record is cited more, it is
  the stored record if that has a non-empty abstract, else \<open>it\<close> if \<open>it\<close> has one, else
  the stored record.
\<close>

theorem representative_after_collision:
  assumes "map_of (byKeyOf rt xs) (makeKey rt it) = Some existing"
  shows "map_of (byKeyOf rt (xs @ [it])) (makeKey rt it) =
     Some (if orZero (citationCount existing) < orZero (citationCount it) then it
           else if truthy (abstract existing) then existing
           else if truthy (abstract it) then it
           else existing)"
  using assms by (simp add: byKeyOf_snoc dedupeStep_update update_conv' pick_def)

lemma byKeyOf_single: "byKeyOf rt [x] = [(makeKey rt x, x)]"
  by (simp add: byKeyOf_def dedupeStep_update)

theorem representative_after_collision_witness:
  "map_of (byKeyOf roundedRuntime [citedNoAbstract]) (makeKey roundedRuntime uncitedWithAbstract)
     = Some citedNoAbstract
   \<and> map_of (byKeyOf roundedRuntime ([citedNoAbstract] @ [uncitedWithAbstract]))
         (makeKey roundedRuntime uncitedWithAbstract)
       = Some uncitedWithAbstract
   \<and> map_of (byKeyOf roundedRuntime [uncitedWithAbstract]) (makeKey roundedRuntime citedNoAbstract)
       = Some uncitedWithAbstract
   \<and> map_of (byKeyOf roundedRuntime ([uncitedWithAbstract] @ [citedNoAbstract]))
         (makeKey roundedRuntime citedNoAbstract)
       = Some citedNoAbstract"
proof -
  have a: "map_of (byKeyOf roundedRuntime [citedNoAbstract]) (makeKey roundedRuntime uncitedWithAbstract)
      = Some citedNoAbstract"
    by (simp add: byKeyOf_single example_keys)
  have b: "map_of (byKeyOf roundedRuntime [uncitedWithAbstract]) (makeKey roundedRuntime citedNoAbstract)
      = Some uncitedWithAbstract"
    by (simp add: byKeyOf_single example_keys)
  have c: "orZero (citationCount citedNoAbstract) = 10" "orZero (citationCount uncitedWithAbstract) = 0"
    "\<not> truthy (abstract citedNoAbstract)" "truthy (abstract uncitedWithAbstract)"
    by (simp_all add: example_defs orZero_def js_def)
  show ?thesis
    using representative_after_collision [OF a] representative_after_collision [OF b] a b c
    by simp
qed

section \<open>Ranking\<close>

lemma insort_key_scored:
  "insort_key (\<lambda>s. - fst s) (f x, x) (map (\<lambda>y. (f y, y)) ys) =
   map (\<lambda>y. (f y, y)) (insort_key (\<lambda>y. - f y) x ys)"
  by (induction ys) simp_all

lemma sort_key_scored:
  "sort_key (\<lambda>s. - fst s) (map (\<lambda>y. (f y, y)) xs) = map (\<lambda>y. (f y, y)) (sort_key (\<lambda>y. - f y) xs)"
  by (induction xs) (simp_all add: insort_key_scored)

lemma rankItems_sort:
  "rankItems rt nowYear merged = sort_key (\<lambda>x. - scoreOf rt nowYear x) merged"
  by (simp add: rankItems_def Let_def sort_key_scored comp_def)

lemma rankItems_descending:
  "sorted_wrt (\<lambda>a b. scoreOf rt nowYear b \<le> scoreOf rt nowYear a) (rankItems rt nowYear merged)"
proof -
  have "sorted (map (\<lambda>x. - scoreOf rt nowYear x) (rankItems rt nowYear merged))"
    unfolding rankItems_sort by (rule sorted_sort_key)
  then show ?thesis by (simp add: sorted_map)
qed

lemma update_values: "snd ` set (AList.update k v al) \<subseteq> insert v (snd ` set al)"
  by (induction al) auto

lemma dedupeStep_values: "snd ` set (dedupeStep rt it byKey) \<subseteq> insert it (snd ` set byKey)"
proof (cases "map_of byKey (makeKey rt it)")
  case None
  then show ?thesis using update_values [of "makeKey rt it" it byKey]
    by (simp add: dedupeStep_update)
next
  case (Some e)
  then have "(makeKey rt it, e) \<in> set byKey" by (rule map_of_SomeD)
  then have "e \<in> snd ` set byKey" by force
  with pick_cases [of it e] have p: "pick it e \<in> insert it (snd ` set byKey)" by auto
  have "snd ` set (AList.update (makeKey rt it) (pick it e) byKey)
      \<subseteq> insert (pick it e) (snd ` set byKey)" by (rule update_values)
  also have "\<dots> \<subseteq> insert it (snd ` set byKey)" using p by blast
  finally show ?thesis using Some by (simp add: dedupeStep_update)
qed

lemma fold_dedupeStep_values:
  "snd ` set (fold (dedupeStep rt) xs acc) \<subseteq> set xs \<union> snd ` set acc"
proof (induction xs arbitrary: acc)
  case Nil
  then show ?case by simp
next
  case (Cons x xs)
  have "snd ` set (fold (dedupeStep rt) xs (dedupeStep rt x acc))
      \<subseteq> set xs \<union> snd ` set (dedupeStep rt x acc)"
    by (rule Cons.IH)
  also have "\<dots> \<subseteq> set xs \<union> insert x (snd ` set acc)"
    using dedupeStep_values [of rt x acc] by auto
  finally show ?case by auto
qed

lemma merged_subset: "set (map snd (byKeyOf rt xs)) \<subseteq> set xs"
  using fold_dedupeStep_values [of rt xs "[]"] by (simp add: byKeyOf_def)

text \<open>
  C10: every record of \<open>items\<close> and of \<open>top\<close> is one of the input records, unchanged;
  \<open>top\<close> has at most \<open>topN\<close> records; and \<open>top\<close> is the first \<open>topN\<close> records of the
  merged records put in descending order of score.
\<close>

theorem dedupeAndRank_returns_input_records:
  "set (items (dedupeAndRank rt xs nowYear topN)) \<subseteq> set xs
   \<and> set (top_items (dedupeAndRank rt xs nowYear topN)) \<subseteq> set xs
   \<and> length (top_items (dedupeAndRank rt xs nowYear topN)) \<le> topN
   \<and> (\<exists>ranked. mset ranked = mset (items (dedupeAndRank rt xs nowYear topN))
        \<and> sorted_wrt (\<lambda>a b. scoreOf rt nowYear b \<le> scoreOf rt nowYear a) ranked
        \<and> top_items (dedupeAndRank rt xs nowYear topN) = take topN ranked)"
proof -
  let ?merged = "map snd (byKeyOf rt xs)"
  let ?ranked = "rankItems rt nowYear ?merged"
  have r: "dedupeAndRank rt xs nowYear topN = \<lparr> items = ?merged, top_items = take topN ?ranked \<rparr>"
    by (simp add: dedupeAndRank_def Let_def)
  have m: "set ?merged \<subseteq> set xs" by (rule merged_subset)
  have "set (take topN ?ranked) \<subseteq> set ?ranked" by (rule set_take_subset)
  also have "\<dots> = set ?merged" by (simp add: rankItems_sort)
  finally have t: "set (take topN ?ranked) \<subseteq> set xs" using m by blast
  have ms: "mset ?ranked = mset ?merged" by (simp add: rankItems_sort)
  have "\<exists>ranked. mset ranked = mset ?merged
        \<and> sorted_wrt (\<lambda>a b. scoreOf rt nowYear b \<le> scoreOf rt nowYear a) ranked
        \<and> take topN ?ranked = take topN ranked"
    using ms rankItems_descending by blast
  with m t show ?thesis unfolding r by simp
qed

section \<open>Ranking and the citation count\<close>




































section \<open>The recency term of the score\<close>





section \<open>The aggregation endpoint: a query that is not a string\<close>

text \<open>
  C3: the endpoint should fail outright only on a query that is empty or blank, with
  400, and answer any other query with a well-formed body. For the body
  \<open>{"query": 123}\<close> the source calls \<open>.trim()\<close> on the number 123, which throws; the
  \<open>catch\<close> clause answers 500 with an error body, whatever the adapters and the limit
  are. (The other two routes of the repository read the field through \<open>String(...)\<close>.)
\<close>

theorem numeric_query_answers_500:
  "litPOST env rt nowYear (Some (JNum (Fin 123))) limitField
     = \<lparr> status = 500,
         body = ErrorBody (if trimTypeError rt = [] then js ''Server error'' else trimTypeError rt) \<rparr>
   \<and> status (litPOST env rt nowYear (Some (JNum (Fin 123))) limitField) \<noteq> 400
   \<and> status (litPOST env rt nowYear (Some (JNum (Fin 123))) limitField) \<noteq> 200"
  by (simp add: litPOST_def trimmedQuery_def caught_def)

section \<open>The PubMed endpoint: request validation\<close>



section \<open>The context is bounded\<close>

lemma appendBlocks_bound:
  "length out \<le> maxChars \<Longrightarrow> length (appendBlocks maxChars out bs) \<le> maxChars"
  by (induction bs arbitrary: out) auto

lemma joinWith_snoc:
  "joinWith sep (bs @ [b]) = (if bs = [] then b else joinWith sep bs @ sep @ b)"
  by (induction sep bs rule: joinWith.induct) auto

lemma joinWith_nonempty: "bs \<noteq> [] \<Longrightarrow> [] \<notin> set bs \<Longrightarrow> joinWith sep bs \<noteq> []"
  by (induction sep bs rule: joinWith.induct) auto

text \<open>The loop keeps a prefix of the blocks, joined, and stops at a block that does not fit.\<close>

lemma appendBlocks_prefix:
  assumes "[] \<notin> set done" "[] \<notin> set bs"
  shows "\<exists>n \<le> length bs.
           appendBlocks maxChars (joinWith blockSep done) bs = joinWith blockSep (done @ take n bs)
           \<and> (n < length bs \<longrightarrow>
                maxChars < length (joinWith blockSep (done @ take n bs) @ blockSep @ bs ! n))"
  using assms
proof (induction bs arbitrary: "done")
  case Nil
  then show ?case by simp
next
  case (Cons b bs)
  let ?out = "joinWith blockSep done"
  show ?case
  proof (cases "maxChars < length (?out @ blockSep @ b)")
    case True
    then have "appendBlocks maxChars ?out (b # bs) = joinWith blockSep (done @ take 0 (b # bs))
        \<and> (0 < length (b # bs) \<longrightarrow>
             maxChars < length (joinWith blockSep (done @ take 0 (b # bs)) @ blockSep @ (b # bs) ! 0))"
      by simp
    then show ?thesis by blast
  next
    case False
    have next_out: "?out @ (if ?out \<noteq> [] then blockSep else []) @ b = joinWith blockSep (done @ [b])"
      using Cons.prems(1) by (cases "done = []") (simp_all add: joinWith_snoc joinWith_nonempty)
    from Cons.prems have "[] \<notin> set (done @ [b])" "[] \<notin> set bs" by auto
    then obtain n where n: "n \<le> length bs"
      "appendBlocks maxChars (joinWith blockSep (done @ [b])) bs
         = joinWith blockSep ((done @ [b]) @ take n bs)"
      "n < length bs \<longrightarrow>
         maxChars < length (joinWith blockSep ((done @ [b]) @ take n bs) @ blockSep @ bs ! n)"
      using Cons.IH [of "done @ [b]"] by blast
    have "appendBlocks maxChars ?out (b # bs) = joinWith blockSep (done @ take (Suc n) (b # bs))"
      using False n(2) next_out by simp
    moreover have "Suc n < length (b # bs) \<longrightarrow>
        maxChars < length (joinWith blockSep (done @ take (Suc n) (b # bs)) @ blockSep @ (b # bs) ! Suc n)"
      using n(3) by simp
    moreover have "Suc n \<le> length (b # bs)" using n(1) by simp
    ultimately show ?thesis by blast
  qed
qed

lemma mkBlock_nonempty: "mkBlock rt x i \<noteq> []"
  by (simp add: mkBlock_def Let_def js_def)

lemma mkBlocks_nonempty: "[] \<notin> set (mkBlocks rt xs)"
proof
  assume "[] \<in> set (mkBlocks rt xs)"
  then obtain i x where "[] = mkBlock rt x i" by (auto simp: mkBlocks_def)
  then show False using mkBlock_nonempty [of rt x i] by simp
qed

lemma length_mkBlocks: "length (mkBlocks rt xs) = length xs"
  by (simp add: mkBlocks_def)

lemma nth_mkBlocks: "i < length xs \<Longrightarrow> mkBlocks rt xs ! i = mkBlock rt (xs ! i) i"
  by (simp add: mkBlocks_def)

text \<open>What a block is: the citation line, then the abstract, trimmed and cut.\<close>

lemma mkBlock_shape:
  "mkBlock rt x i =
     mkCiteLine rt x i @ js ''\<newline>Abstract: ''
     @ (let t = trim (case abstract x of None \<Rightarrow> [] | Some a \<Rightarrow> a)
        in if t = [] then js ''N/A''
           else if length t \<le> 1500 then t
           else take 1500 t @ [8230])"
  by (simp add: mkBlock_def cappedAbstract_def ellipsis_def Let_def)

text \<open>
  C9: the digest is bounded. Each block is the citation line of its record followed by
  the abstract, trimmed and, when longer than 1500 units, cut to its first 1500 units
  and the ellipsis; the result is the blocks of the first \<open>n\<close> records, in order, joined
  by blank lines; it stops at the first block that would take the text over \<open>maxChars\<close>
  (12000 by default); and it is never longer than \<open>maxChars\<close>.
\<close>

theorem context_is_bounded:
  "length (mkGeminiContext rt xs maxChars) \<le> maxChars
   \<and> length (mkBlocks rt xs) = length xs
   \<and> (\<forall>i < length xs.
         mkBlocks rt xs ! i =
           mkCiteLine rt (xs ! i) i @ js ''\<newline>Abstract: ''
           @ (let t = trim (case abstract (xs ! i) of None \<Rightarrow> [] | Some a \<Rightarrow> a)
              in if t = [] then js ''N/A''
                 else if length t \<le> 1500 then t
                 else take 1500 t @ [8230]))
   \<and> (\<exists>n \<le> length xs.
         mkGeminiContext rt xs maxChars = joinWith (js ''\<newline>\<newline>'') (take n (mkBlocks rt xs))
         \<and> (n < length xs \<longrightarrow>
              maxChars < length (mkGeminiContext rt xs maxChars @ js ''\<newline>\<newline>''
                                 @ mkBlocks rt xs ! n)))"
proof -
  have a: "length (mkGeminiContext rt xs maxChars) \<le> maxChars"
    unfolding mkGeminiContext_def by (rule appendBlocks_bound) simp
  have b: "\<forall>i < length xs.
         mkBlocks rt xs ! i =
           mkCiteLine rt (xs ! i) i @ js ''\<newline>Abstract: ''
           @ (let t = trim (case abstract (xs ! i) of None \<Rightarrow> [] | Some a \<Rightarrow> a)
              in if t = [] then js ''N/A''
                 else if length t \<le> 1500 then t
                 else take 1500 t @ [8230])"
    using mkBlock_shape by (simp add: nth_mkBlocks)
  have "\<exists>n \<le> length (mkBlocks rt xs).
           appendBlocks maxChars (joinWith blockSep []) (mkBlocks rt xs)
             = joinWith blockSep ([] @ take n (mkBlocks rt xs))
           \<and> (n < length (mkBlocks rt xs) \<longrightarrow>
                maxChars < length (joinWith blockSep ([] @ take n (mkBlocks rt xs)) @ blockSep
                                   @ mkBlocks rt xs ! n))"
    by (rule appendBlocks_prefix) (simp_all add: mkBlocks_nonempty)
  then have c: "\<exists>n \<le> length xs.
         mkGeminiContext rt xs maxChars = joinWith (js ''\<newline>\<newline>'') (take n (mkBlocks rt xs))
         \<and> (n < length xs \<longrightarrow>
              maxChars < length (mkGeminiContext rt xs maxChars @ js ''\<newline>\<newline>''
                                 @ mkBlocks rt xs ! n))"
    by (auto simp: mkGeminiContext_def length_mkBlocks blockSep_def)
  from a b c length_mkBlocks [of rt xs] show ?thesis by blast
qed

lemma mkBlocks_two: "mkBlocks rt [p, q] = [mkBlock rt p 0, mkBlock rt q (Suc 0)]"
  by (simp add: mkBlocks_def upt_rec)

lemma cite_lines:
  "mkCiteLine roundedRuntime shortPaper 0 = js ''#1 T '' @ [8212] @ js ''  [CROSSREF]''"
  "mkCiteLine roundedRuntime longAbstract (Suc 0) = js ''#2  '' @ [8212] @ js ''  [CROSSREF]''"
  by (simp_all add: mkCiteLine_def compactAuthors_def showInt_def emDash_def
      shortPaper_def longAbstract_def blankRecord_def js_def Let_def)

lemma example_abstracts:
  "trim (case abstract shortPaper of None \<Rightarrow> [] | Some a \<Rightarrow> a) = js ''abc''"
  "trim (case abstract longAbstract of None \<Rightarrow> [] | Some a \<Rightarrow> a) = replicate 2000 97"
  by (simp_all add: shortPaper_def longAbstract_def blankRecord_def trim_def isSpace_def js_def)

lemma shortPaper_block:
  "mkBlock roundedRuntime shortPaper 0
     = js ''#1 T '' @ [8212] @ js ''  [CROSSREF]'' @ js ''\<newline>Abstract: abc''"
  by (simp only: mkBlock_shape cite_lines example_abstracts Let_def) (simp add: js_def)

lemma longAbstract_block:
  "mkBlock roundedRuntime longAbstract (Suc 0)
     = js ''#2  '' @ [8212] @ js ''  [CROSSREF]'' @ js ''\<newline>Abstract: ''
       @ replicate 1500 97 @ [8230]"
  by (simp only: mkBlock_shape cite_lines example_abstracts Let_def) simp

lemma longPaper_block_length: "length (mkBlock roundedRuntime longPaper 0) = 12031"
  by (simp add: mkBlock_def mkCiteLine_def cappedAbstract_def compactAuthors_def showInt_def
      longPaper_def blankRecord_def trim_def js_def Let_def)

theorem context_is_bounded_witness:
  "mkGeminiContext roundedRuntime [shortPaper, longAbstract] 12000
     = mkBlock roundedRuntime shortPaper 0 @ js ''\<newline>\<newline>'' @ mkBlock roundedRuntime longAbstract 1
   \<and> length (mkGeminiContext roundedRuntime [shortPaper, longAbstract] 12000) \<le> 12000
   \<and> 1 < length [shortPaper, longAbstract]
   \<and> abstract ([shortPaper, longAbstract] ! 1) = Some (replicate 2000 97)
   \<and> mkBlocks roundedRuntime [shortPaper, longAbstract] ! 1
       = js ''#2  '' @ [8212] @ js ''  [CROSSREF]'' @ js ''\<newline>Abstract: ''
         @ replicate 1500 97 @ [8230]
   \<and> mkGeminiContext roundedRuntime [longPaper, shortPaper] 12000
       = joinWith (js ''\<newline>\<newline>'') (take 0 (mkBlocks roundedRuntime [longPaper, shortPaper]))
   \<and> 0 < length [longPaper, shortPaper]
   \<and> 12000 < length (mkGeminiContext roundedRuntime [longPaper, shortPaper] 12000 @ js ''\<newline>\<newline>''
                       @ mkBlocks roundedRuntime [longPaper, shortPaper] ! 0)"
proof -
  have s: "js ''\<newline>\<newline>'' = [10, 10]" by (simp add: js_def)
  have a: "mkGeminiContext roundedRuntime [shortPaper, longAbstract] 12000
     = mkBlock roundedRuntime shortPaper 0 @ js ''\<newline>\<newline>'' @ mkBlock roundedRuntime longAbstract 1"
    by (simp add: mkGeminiContext_def mkBlocks_two blockSep_def s)
       (simp add: shortPaper_block longAbstract_block js_def)
  have b: "mkGeminiContext roundedRuntime [longPaper, shortPaper] 12000 = []"
    by (simp add: mkGeminiContext_def mkBlocks_two longPaper_block_length blockSep_def s)
  have c: "abstract ([shortPaper, longAbstract] ! 1) = Some (replicate 2000 97)"
    by (simp add: longAbstract_def)
  have d: "mkBlocks roundedRuntime [shortPaper, longAbstract] ! 1
       = js ''#2  '' @ [8212] @ js ''  [CROSSREF]'' @ js ''\<newline>Abstract: ''
         @ replicate 1500 97 @ [8230]"
    by (simp add: mkBlocks_two longAbstract_block)
  show ?thesis
    using context_is_bounded [of roundedRuntime "[shortPaper, longAbstract]" 12000]
      context_is_bounded [of roundedRuntime "[longPaper, shortPaper]" 12000]
      a b c d
    by (simp add: mkBlocks_two longPaper_block_length s)
qed

end
